theory Spec2Isabelle
  imports Main
begin

section \<open>Python strings\<close>

text \<open>
  A Python \<open>str\<close> is a sequence of Unicode code points, so it is modelled as a list of
  code points (natural numbers) rather than as a list of bytes: \<open>len\<close>, slicing and
  \<open>strip\<close> all count code points. \<open>py\<close> turns an ASCII literal into such a string.
\<close>

type_synonym pystr = "nat list"

definition py :: "string \<Rightarrow> pystr" where
  "py s = map of_char s"

text \<open>
  \<open>str.isspace\<close> for one code point: the characters CPython treats as whitespace
  (tab to carriage return, the separators 0x1C to 0x1F, space, NEL, no-break space,
  ogham space, en quad to hair space, line and paragraph separator, narrow no-break
  space, medium mathematical space, ideographic space).
\<close>

definition isspace :: "nat \<Rightarrow> bool" where
  "isspace c \<longleftrightarrow>
     (9 \<le> c \<and> c \<le> 13) \<or> (28 \<le> c \<and> c \<le> 32) \<or> c = 133 \<or> c = 160 \<or>
     c = 5760 \<or> (8192 \<le> c \<and> c \<le> 8202) \<or> c = 8232 \<or> c = 8233 \<or>
     c = 8239 \<or> c = 8287 \<or> c = 12288"

definition lstrip :: "pystr \<Rightarrow> pystr" where
  "lstrip s = dropWhile isspace s"

definition rstrip :: "pystr \<Rightarrow> pystr" where
  "rstrip s = rev (dropWhile isspace (rev s))"

text \<open>\<open>str.strip()\<close> without arguments removes leading and trailing whitespace.\<close>

definition strip :: "pystr \<Rightarrow> pystr" where
  "strip s = rstrip (lstrip s)"

text \<open>\<open>s.replace(old, new)\<close> for one-character \<open>old\<close> and \<open>new\<close>: every occurrence.\<close>

definition replace :: "nat \<Rightarrow> nat \<Rightarrow> pystr \<Rightarrow> pystr" where
  "replace old new s = map (\<lambda>c. if c = old then new else c) s"

text \<open>\<open>s.endswith(suffix)\<close>.\<close>

definition endswith :: "pystr \<Rightarrow> pystr \<Rightarrow> bool" where
  "endswith s suf \<longleftrightarrow> length suf \<le> length s \<and> drop (length s - length suf) s = suf"

section \<open>The filename sanitizer\<close>

text \<open>
  \<^verbatim>\<open>_sanitize_filename\<close>: the nine characters of \<open>invalid_chars\<close> are, in the source's
  order, less-than (60), greater-than (62), colon (58), double quote (34), slash (47),
  backslash (92), vertical bar (124), question mark (63) and asterisk (42). The loop
  over them replaces one character per round by an underscore (95); the result is
  stripped.
\<close>

definition invalid_chars :: pystr where
  "invalid_chars = [60, 62, 58, 34, 47, 92, 124, 63, 42]"

definition underscore :: nat where
  "underscore = 95"

definition sanitize_filename :: "pystr \<Rightarrow> pystr" where
  "sanitize_filename filename =
     strip (foldl (\<lambda>name char. replace char underscore name) filename invalid_chars)"

text \<open>What the claims call the substitution of the input: every invalid character at once.\<close>

definition substitute :: "pystr \<Rightarrow> pystr" where
  "substitute s = map (\<lambda>c. if c \<in> set invalid_chars then underscore else c) s"

section \<open>Exceptions\<close>

text \<open>
  The two handlers of the download functions tell \<open>PytubeError\<close> from every other
  \<open>Exception\<close>; both carry the message that formatting the exception prints.
\<close>

datatype exn = PytubeError pystr | Exception pystr

section \<open>The external stream provider\<close>

text \<open>
  Modelled from the spec: the stream descriptor and the query interface of the external
  metadata provider (the pytube library: \<open>Stream\<close>, and \<open>StreamQuery\<close> with \<open>filter\<close>,
  \<open>order_by\<close>, \<open>desc\<close>, \<open>first\<close>, \<open>last\<close>, \<open>get_highest_resolution\<close>) are not part of the
  repository. A descriptor holds the attributes the source's queries read; resolution
  and audio bitrate may be absent. \<open>is_progressive\<close> and \<open>is_adaptive\<close> are kept
  independent, which covers the provider's own convention that one negates the other.
\<close>

record stream =
  itag :: nat
  resolution :: "pystr option"
  subtype :: pystr
  abr :: "pystr option"
  is_progressive :: bool
  is_adaptive :: bool
  includes_audio_track :: bool
  includes_video_track :: bool

text \<open>
  Modelled from the spec: the keyword criteria of \<open>filter\<close> that the source uses. A
  stream is kept when it meets every criterion given; the provider's order is kept.
  \<open>only_audio\<close> means an audio track and no video track, \<open>only_video\<close> the converse;
  \<open>file_extension\<close> and \<open>resolution\<close> compare the attribute with the given string.
\<close>

datatype criterion =
  Progressive | Adaptive | OnlyAudio | OnlyVideo | FileExtension pystr | Resolution pystr

fun meets :: "stream \<Rightarrow> criterion \<Rightarrow> bool" where
  "meets s Progressive = is_progressive s"
| "meets s Adaptive = is_adaptive s"
| "meets s OnlyAudio = (includes_audio_track s \<and> \<not> includes_video_track s)"
| "meets s OnlyVideo = (includes_video_track s \<and> \<not> includes_audio_track s)"
| "meets s (FileExtension e) = (subtype s = e)"
| "meets s (Resolution r) = (resolution s = Some r)"

definition filter_streams :: "criterion list \<Rightarrow> stream list \<Rightarrow> stream list" where
  "filter_streams cs ss = filter (\<lambda>s. list_all (meets s) cs) ss"

text \<open>
  Modelled from the spec: \<open>order_by\<close> drops the streams that lack the attribute and
  sorts the others, stably and ascending, by the number that the decimal digits of the
  attribute spell (720 for 720p, 128 for 128kbps); \<open>desc\<close> reverses; \<open>first\<close> and
  \<open>last\<close> return an end of the list, or nothing when it is empty;
  \<open>get_highest_resolution\<close> is the last progressive stream in order of resolution.
\<close>

definition isdigit :: "nat \<Rightarrow> bool" where
  "isdigit c \<longleftrightarrow> 48 \<le> c \<and> c \<le> 57"

definition int_repr :: "pystr \<Rightarrow> nat" where
  "int_repr s = foldl (\<lambda>n c. 10 * n + (c - 48)) 0 (filter isdigit s)"

definition attr_key :: "(stream \<Rightarrow> pystr option) \<Rightarrow> stream \<Rightarrow> nat" where
  "attr_key attr s = (case attr s of None \<Rightarrow> 0 | Some v \<Rightarrow> int_repr v)"

definition order_by :: "(stream \<Rightarrow> pystr option) \<Rightarrow> stream list \<Rightarrow> stream list" where
  "order_by attr ss = sort_key (attr_key attr) (filter (\<lambda>s. attr s \<noteq> None) ss)"

definition desc :: "stream list \<Rightarrow> stream list" where
  "desc ss = rev ss"

definition first :: "stream list \<Rightarrow> stream option" where
  "first ss = (case ss of [] \<Rightarrow> None | s # _ \<Rightarrow> Some s)"

definition last_stream :: "stream list \<Rightarrow> stream option" where
  "last_stream ss = (if ss = [] then None else Some (last ss))"

definition get_highest_resolution :: "stream list \<Rightarrow> stream option" where
  "get_highest_resolution ss = last_stream (order_by resolution (filter_streams [Progressive] ss))"

text \<open>
  Modelled from the spec: the \<open>YouTube\<close> object of the provider. Its metadata is fetched
  over the network when an attribute is read, so reading an attribute either yields the
  value or raises.
\<close>

record youtube =
  title :: "exn + pystr"
  author :: "exn + pystr"
  length_secs :: "exn + int"
  views :: "exn + int"
  publish_date :: "exn + int option"
  description :: "exn + pystr option"
  streams :: "exn + stream list"

section \<open>Stream selection\<close>

text \<open>
  \<^verbatim>\<open>_get_video_stream\<close>: a progressive mp4 stream of the requested resolution if there
  is one, else an adaptive video-only one, else nothing. The whole body stands in a
  \<open>try\<close> whose handler returns nothing.
\<close>

definition get_video_stream :: "youtube \<Rightarrow> pystr \<Rightarrow> stream option" where
  "get_video_stream yt res =
     (case streams yt of
        Inl e \<Rightarrow> None
      | Inr ss \<Rightarrow>
          (let strs = desc (order_by resolution
                 (filter_streams [Progressive, FileExtension (py ''mp4''), Resolution res] ss))
           in if strs \<noteq> [] then first strs
              else
                (let video_streams = desc (order_by resolution
                       (filter_streams
                          [Adaptive, OnlyVideo, FileExtension (py ''mp4''), Resolution res] ss))
                 in if video_streams \<noteq> [] then first video_streams else None)))"

text \<open>\<^verbatim>\<open>_get_audio_stream\<close>: the audio-only mp4 stream of the highest bitrate.\<close>

definition get_audio_stream :: "youtube \<Rightarrow> stream option" where
  "get_audio_stream yt =
     (case streams yt of
        Inl e \<Rightarrow> None
      | Inr ss \<Rightarrow>
          (let audio_streams = desc (order_by abr
                 (filter_streams [OnlyAudio, FileExtension (py ''mp4'')] ss))
           in if audio_streams \<noteq> [] then first audio_streams else None))"

text \<open>
  Lines 114 to 123 of \<^verbatim>\<open>download_mp4\<close>: the resolver, then the fallback to the best
  progressive mp4 stream, then to the provider's highest resolution. Reading
  \<open>yt.streams\<close> in the fallback is outside the resolver's \<open>try\<close>, so it can raise.
\<close>

definition select_video_stream :: "youtube \<Rightarrow> pystr \<Rightarrow> exn + stream option" where
  "select_video_stream yt res =
     (case get_video_stream yt res of
        Some video_stream \<Rightarrow> Inr (Some video_stream)
      | None \<Rightarrow>
          (case streams yt of
             Inl e \<Rightarrow> Inl e
           | Inr ss \<Rightarrow>
               (case first (desc (order_by resolution
                       (filter_streams [Progressive, FileExtension (py ''mp4'')] ss))) of
                  Some video_stream \<Rightarrow> Inr (Some video_stream)
                | None \<Rightarrow> Inr (get_highest_resolution ss))))"

text \<open>The vocabulary of the claims about selection.\<close>

definition progressive_match :: "pystr \<Rightarrow> stream \<Rightarrow> bool" where
  "progressive_match res s \<longleftrightarrow>
     is_progressive s \<and> subtype s = py ''mp4'' \<and> resolution s = Some res"

definition adaptive_match :: "pystr \<Rightarrow> stream \<Rightarrow> bool" where
  "adaptive_match res s \<longleftrightarrow>
     is_adaptive s \<and> includes_video_track s \<and> \<not> includes_audio_track s
     \<and> subtype s = py ''mp4'' \<and> resolution s = Some res"

definition progressive_mp4 :: "stream \<Rightarrow> bool" where
  "progressive_mp4 s \<longleftrightarrow> is_progressive s \<and> subtype s = py ''mp4'' \<and> resolution s \<noteq> None"

definition audio_mp4 :: "stream \<Rightarrow> bool" where
  "audio_mp4 s \<longleftrightarrow>
     includes_audio_track s \<and> \<not> includes_video_track s \<and> subtype s = py ''mp4''"

section \<open>Files and the other collaborators\<close>

text \<open>
  The file system is a map from paths to what the file holds: nothing yet, the bytes of
  a stream, or transcoded audio. \<open>os.rename\<close> moves the entry (replacing a file at the
  target, as POSIX does) and \<open>os.unlink\<close> removes it; both raise when the source path
  is missing.
\<close>

datatype content = EmptyFile | StreamData stream | Mp3Data

type_synonym files = "pystr \<rightharpoonup> content"

definition os_rename :: "pystr \<Rightarrow> pystr \<Rightarrow> files \<Rightarrow> exn + files" where
  "os_rename src dst fs =
     (case fs src of
        None \<Rightarrow> Inl (Exception (py ''[Errno 2] No such file or directory''))
      | Some c \<Rightarrow> Inr ((fs(src := None))(dst \<mapsto> c)))"

definition os_unlink :: "pystr \<Rightarrow> files \<Rightarrow> exn + files" where
  "os_unlink path fs =
     (case fs path of
        None \<Rightarrow> Inl (Exception (py ''[Errno 2] No such file or directory''))
      | Some c \<Rightarrow> Inr (fs(path := None)))"

text \<open>\<open>os.path.join(a, b)\<close> of posixpath, for two components.\<close>

definition os_path_join :: "pystr \<Rightarrow> pystr \<Rightarrow> pystr" where
  "os_path_join a b =
     (if b \<noteq> [] \<and> hd b = 47 then b
      else if a = [] \<or> last a = 47 then a @ b
      else a @ [47] @ b)"

text \<open>
  Modelled from the spec: what the external collaborators answer. \<open>YouTube\<close> builds the
  provider's object for a URL or raises; \<open>download\<close> is the stream's byte transfer
  (\<open>stream.download(output_path, filename)\<close>), which raises or returns the path it wrote;
  \<open>NamedTemporaryFile\<close> is the name the operating system picks for a temporary file of
  a given suffix; \<open>AudioFileClip\<close> opens a media file and \<open>write_audiofile\<close> transcodes
  it to a target path, each raising or not. A transfer or a transcoding that raises is
  taken to leave the files as they were.
\<close>

record collaborators =
  YouTube :: "pystr \<Rightarrow> exn + youtube"
  download :: "stream \<Rightarrow> pystr option \<Rightarrow> pystr \<Rightarrow> exn + pystr"
  NamedTemporaryFile :: "pystr \<Rightarrow> pystr"
  AudioFileClip :: "pystr \<Rightarrow> exn option"
  write_audiofile :: "pystr \<Rightarrow> pystr \<Rightarrow> exn option"

record YouTubeDownloader =
  output_path :: pystr

section \<open>Downloads\<close>

text \<open>
  The filename stem (lines 110 to 111 and 167 to 168): the caller's, or the sanitized
  title when the caller gave none; reading the title can raise.
\<close>

definition stem_of :: "youtube \<Rightarrow> pystr option \<Rightarrow> exn + pystr" where
  "stem_of yt filename =
     (case filename of
        Some f \<Rightarrow> Inr f
      | None \<Rightarrow> (case title yt of Inl e \<Rightarrow> Inl e | Inr t \<Rightarrow> Inr (sanitize_filename t)))"

text \<open>
  Lines 125 to 141 of \<^verbatim>\<open>download_mp4\<close>: the log lines read the title and the
  stream's resolution (an \<open>AttributeError\<close> when no stream was selected), the transfer
  writes a file and returns its path, and a path that does not end in \<open>.mp4\<close> is
  renamed.
\<close>

definition attribute_error :: exn where
  "attribute_error =
     Exception ([39] @ py ''NoneType'' @ [39] @ py '' object has no attribute ''
                @ [39] @ py ''resolution'' @ [39])"

definition transfer_video ::
  "collaborators \<Rightarrow> YouTubeDownloader \<Rightarrow> youtube \<Rightarrow> pystr \<Rightarrow> stream option \<Rightarrow> files
     \<Rightarrow> (exn + pystr) \<times> files" where
  "transfer_video c self yt filename video_stream fs =
     (case title yt of
        Inl e \<Rightarrow> (Inl e, fs)
      | Inr t \<Rightarrow>
          (case video_stream of
             None \<Rightarrow> (Inl attribute_error, fs)
           | Some vs \<Rightarrow>
               (case download c vs (Some (output_path self)) filename of
                  Inl e \<Rightarrow> (Inl e, fs)
                | Inr file_path \<Rightarrow>
                    (let fs1 = fs(file_path \<mapsto> StreamData vs)
                     in if \<not> endswith file_path (py ''.mp4'')
                        then
                          (let new_path = file_path @ py ''.mp4''
                           in case os_rename file_path new_path fs1 of
                                Inl e \<Rightarrow> (Inl e, fs1)
                              | Inr fs2 \<Rightarrow> (Inr new_path, fs2))
                        else (Inr file_path, fs1)))))"

definition download_mp4_try ::
  "collaborators \<Rightarrow> YouTubeDownloader \<Rightarrow> pystr \<Rightarrow> pystr option \<Rightarrow> pystr \<Rightarrow> files
     \<Rightarrow> (exn + pystr) \<times> files" where
  "download_mp4_try c self url filename res fs =
     (case YouTube c url of
        Inl e \<Rightarrow> (Inl e, fs)
      | Inr yt \<Rightarrow>
          (case stem_of yt filename of
             Inl e \<Rightarrow> (Inl e, fs)
           | Inr stem \<Rightarrow>
               (case select_video_stream yt res of
                  Inl e \<Rightarrow> (Inl e, fs)
                | Inr video_stream \<Rightarrow> transfer_video c self yt stem video_stream fs)))"

text \<open>The two handlers of \<^verbatim>\<open>download_mp4\<close> raise the same wrapped exception.\<close>

fun video_failure :: "exn \<Rightarrow> exn" where
  "video_failure (PytubeError m) = Exception (py ''Failed to download video: '' @ m)"
| "video_failure (Exception m) = Exception (py ''Failed to download video: '' @ m)"

definition download_mp4 ::
  "collaborators \<Rightarrow> YouTubeDownloader \<Rightarrow> pystr \<Rightarrow> pystr option \<Rightarrow> pystr \<Rightarrow> files
     \<Rightarrow> (exn + pystr) \<times> files" where
  "download_mp4 c self url filename res fs =
     (case download_mp4_try c self url filename res fs of
        (Inl e, fs') \<Rightarrow> (Inl (video_failure e), fs')
      | (Inr file_path, fs') \<Rightarrow> (Inr file_path, fs'))"

text \<open>
  Lines 176 to 196 of \<^verbatim>\<open>download_mp3\<close>: the temporary file is created and kept
  (\<open>delete=False\<close>), the stream is transferred, the clip is opened and transcoded, and
  the temporary file is unlinked after the transcoding.
\<close>

definition transfer_audio ::
  "collaborators \<Rightarrow> YouTubeDownloader \<Rightarrow> youtube \<Rightarrow> pystr \<Rightarrow> stream \<Rightarrow> files
     \<Rightarrow> (exn + pystr) \<times> files" where
  "transfer_audio c self yt filename audio_stream fs =
     (case title yt of
        Inl e \<Rightarrow> (Inl e, fs)
      | Inr t \<Rightarrow>
          (let temp_path = NamedTemporaryFile c (py ''.mp4'');
               fs1 = fs(temp_path \<mapsto> EmptyFile)
           in case download c audio_stream None temp_path of
                Inl e \<Rightarrow> (Inl e, fs1)
              | Inr written \<Rightarrow>
                  (let fs2 = fs1(written \<mapsto> StreamData audio_stream);
                       out = os_path_join (output_path self) (filename @ py ''.mp3'')
                   in case AudioFileClip c temp_path of
                        Some e \<Rightarrow> (Inl e, fs2)
                      | None \<Rightarrow>
                          (case write_audiofile c temp_path out of
                             Some e \<Rightarrow> (Inl e, fs2)
                           | None \<Rightarrow>
                               (let fs3 = fs2(out \<mapsto> Mp3Data)
                                in case os_unlink temp_path fs3 of
                                     Inl e \<Rightarrow> (Inl e, fs3)
                                   | Inr fs4 \<Rightarrow> (Inr out, fs4))))))"

definition download_mp3_try ::
  "collaborators \<Rightarrow> YouTubeDownloader \<Rightarrow> pystr \<Rightarrow> pystr option \<Rightarrow> files
     \<Rightarrow> (exn + pystr) \<times> files" where
  "download_mp3_try c self url filename fs =
     (case YouTube c url of
        Inl e \<Rightarrow> (Inl e, fs)
      | Inr yt \<Rightarrow>
          (case stem_of yt filename of
             Inl e \<Rightarrow> (Inl e, fs)
           | Inr stem \<Rightarrow>
               (case get_audio_stream yt of
                  None \<Rightarrow> (Inl (Exception (py ''No suitable audio stream found'')), fs)
                | Some audio_stream \<Rightarrow> transfer_audio c self yt stem audio_stream fs)))"

fun audio_failure :: "exn \<Rightarrow> exn" where
  "audio_failure (PytubeError m) = Exception (py ''Failed to download audio: '' @ m)"
| "audio_failure (Exception m) = Exception (py ''Failed to download audio: '' @ m)"

definition download_mp3 ::
  "collaborators \<Rightarrow> YouTubeDownloader \<Rightarrow> pystr \<Rightarrow> pystr option \<Rightarrow> files
     \<Rightarrow> (exn + pystr) \<times> files" where
  "download_mp3 c self url filename fs =
     (case download_mp3_try c self url filename fs of
        (Inl e, fs') \<Rightarrow> (Inl (audio_failure e), fs')
      | (Inr out, fs') \<Rightarrow> (Inr out, fs'))"

section \<open>Video information\<close>

text \<open>
  \<^verbatim>\<open>get_video_info\<close> builds a dictionary of six entries, reading the attributes in
  the order of the dictionary display; the description is cut to 200 characters and an
  ellipsis when it is longer. The handler turns every exception into the empty
  dictionary. The result is a sum so that an exception reaching the caller would show.
\<close>

datatype pyval = PyStr pystr | PyInt int | PyDatetime int | PyNone

type_synonym pydict = "(pystr \<times> pyval) list"

definition short_description :: "pystr option \<Rightarrow> pyval" where
  "short_description d =
     (case d of
        None \<Rightarrow> PyNone
      | Some s \<Rightarrow> if s \<noteq> [] \<and> length s > 200 then PyStr (take 200 s @ py ''...'') else PyStr s)"

definition date_val :: "int option \<Rightarrow> pyval" where
  "date_val d = (case d of None \<Rightarrow> PyNone | Some t \<Rightarrow> PyDatetime t)"

definition get_video_info_try :: "collaborators \<Rightarrow> pystr \<Rightarrow> exn + pydict" where
  "get_video_info_try c url =
     (case YouTube c url of Inl e \<Rightarrow> Inl e | Inr yt \<Rightarrow>
     (case title yt of Inl e \<Rightarrow> Inl e | Inr t \<Rightarrow>
     (case author yt of Inl e \<Rightarrow> Inl e | Inr a \<Rightarrow>
     (case length_secs yt of Inl e \<Rightarrow> Inl e | Inr l \<Rightarrow>
     (case views yt of Inl e \<Rightarrow> Inl e | Inr v \<Rightarrow>
     (case publish_date yt of Inl e \<Rightarrow> Inl e | Inr p \<Rightarrow>
     (case description yt of Inl e \<Rightarrow> Inl e | Inr d \<Rightarrow>
        Inr [(py ''title'', PyStr t), (py ''author'', PyStr a), (py ''length'', PyInt l),
             (py ''views'', PyInt v), (py ''publish_date'', date_val p),
             (py ''description'', short_description d)])))))))"

definition get_video_info :: "collaborators \<Rightarrow> pystr \<Rightarrow> exn + pydict" where
  "get_video_info c url =
     (case get_video_info_try c url of Inl e \<Rightarrow> Inr [] | Inr info \<Rightarrow> Inr info)"

section \<open>Example inputs\<close>

text \<open>
  Streams as the provider lists them for a video, a video object and collaborators over
  them, for evaluating the functions on concrete inputs. The example transfer writes
  below the output directory, or to the given name when no directory is given; the
  example transcoding fails with the given exception, if any.
\<close>

definition mp4_stream ::
  "nat \<Rightarrow> pystr option \<Rightarrow> pystr option \<Rightarrow> bool \<Rightarrow> bool \<Rightarrow> bool \<Rightarrow> stream" where
  "mp4_stream i r a prog au vi =
     \<lparr>itag = i, resolution = r, subtype = py ''mp4'', abr = a, is_progressive = prog,
      is_adaptive = (\<not> prog), includes_audio_track = au, includes_video_track = vi\<rparr>"

definition progressive_720 :: stream where
  "progressive_720 = mp4_stream 22 (Some (py ''720p'')) (Some (py ''192kbps'')) True True True"

definition progressive_360 :: stream where
  "progressive_360 = mp4_stream 18 (Some (py ''360p'')) (Some (py ''96kbps'')) True True True"

definition adaptive_720 :: stream where
  "adaptive_720 = mp4_stream 136 (Some (py ''720p'')) None False False True"

definition adaptive_1080 :: stream where
  "adaptive_1080 = mp4_stream 137 (Some (py ''1080p'')) None False False True"

definition audio_96 :: stream where
  "audio_96 = mp4_stream 139 None (Some (py ''96kbps'')) False True False"

definition audio_128 :: stream where
  "audio_128 = mp4_stream 140 None (Some (py ''128kbps'')) False True False"

definition audio_160 :: stream where
  "audio_160 = mp4_stream 141 None (Some (py ''160kbps'')) False True False"

definition example_video :: "stream list \<Rightarrow> youtube" where
  "example_video ss =
     \<lparr>title = Inr (py ''What? A/B test''), author = Inr (py ''someone''),
      length_secs = Inr 212, views = Inr 1000, publish_date = Inr (Some 1700000000),
      description = Inr (Some (replicate 250 120)), streams = Inr ss\<rparr>"

definition example_collaborators :: "stream list \<Rightarrow> exn option \<Rightarrow> collaborators" where
  "example_collaborators ss failure =
     \<lparr>YouTube = (\<lambda>url. if url = [] then Inl (PytubeError (py ''regex_search'')) else Inr (example_video ss)),
      download = (\<lambda>s dir name. Inr (case dir of None \<Rightarrow> name | Some d \<Rightarrow> os_path_join d name)),
      NamedTemporaryFile = (\<lambda>suffix. py ''/tmp/tmpab12'' @ suffix),
      AudioFileClip = (\<lambda>path. None),
      write_audiofile = (\<lambda>src dst. failure)\<rparr>"

definition example_downloader :: YouTubeDownloader where
  "example_downloader = \<lparr>output_path = py ''./downloads''\<rparr>"

definition example_url :: pystr where
  "example_url = py ''https://youtu.be/abc''"

section \<open>Properties of the string functions\<close>

lemma foldl_replace:
  "u \<notin> set cs \<Longrightarrow>
   foldl (\<lambda>name char. replace char u name) s cs = map (\<lambda>c. if c \<in> set cs then u else c) s"
proof (induction cs arbitrary: s)
  case Nil
  then show ?case by simp
next
  case (Cons a cs)
  then show ?case by (auto simp: replace_def)
qed

lemma underscore_valid: "underscore \<notin> set invalid_chars"
  by (simp add: underscore_def invalid_chars_def)

lemma sanitize_filename_substitute: "sanitize_filename s = strip (substitute s)"
  by (simp add: sanitize_filename_def substitute_def foldl_replace [OF underscore_valid])

lemma substitute_clean: "set (substitute s) \<inter> set invalid_chars = {}"
  using underscore_valid by (auto simp: substitute_def)

lemma substitute_id: "set s \<inter> set invalid_chars = {} \<Longrightarrow> substitute s = s"
proof -
  assume "set s \<inter> set invalid_chars = {}"
  then have "\<And>c. c \<in> set s \<Longrightarrow> (if c \<in> set invalid_chars then underscore else c) = c"
    by auto
  then show ?thesis
    unfolding substitute_def by (rule map_idI)
qed

lemma lstrip_suffix: "\<exists>ws. s = ws @ lstrip s \<and> list_all isspace ws"
proof -
  have "s = takeWhile isspace s @ lstrip s"
    by (simp add: lstrip_def)
  moreover have "list_all isspace (takeWhile isspace s)"
    by (simp add: list_all_iff) (meson set_takeWhileD)
  ultimately show ?thesis by blast
qed

lemma rstrip_prefix: "\<exists>ws. s = rstrip s @ ws \<and> list_all isspace ws"
proof -
  have "rev s = takeWhile isspace (rev s) @ dropWhile isspace (rev s)"
    by simp
  then have "s = rev (dropWhile isspace (rev s)) @ rev (takeWhile isspace (rev s))"
    by (metis rev_append rev_rev_ident)
  moreover have "list_all isspace (rev (takeWhile isspace (rev s)))"
    by (simp add: list_all_iff) (meson set_takeWhileD)
  ultimately show ?thesis unfolding rstrip_def by blast
qed

lemma lstrip_head: "lstrip s = [] \<or> \<not> isspace (hd (lstrip s))"
  unfolding lstrip_def by (metis hd_dropWhile)

lemma rstrip_last: "rstrip s = [] \<or> \<not> isspace (last (rstrip s))"
proof (cases "dropWhile isspace (rev s)")
  case Nil
  then show ?thesis by (simp add: rstrip_def)
next
  case (Cons a as)
  then have "\<not> isspace a"
    by (metis hd_dropWhile list.sel(1) list.distinct(1))
  then show ?thesis using Cons by (simp add: rstrip_def)
qed

lemma lstrip_id: "s = [] \<or> \<not> isspace (hd s) \<Longrightarrow> lstrip s = s"
  unfolding lstrip_def by (cases s) auto

lemma rstrip_id: "s = [] \<or> \<not> isspace (last s) \<Longrightarrow> rstrip s = s"
  unfolding rstrip_def by (cases s rule: rev_cases) auto

lemma rstrip_head:
  assumes "s = [] \<or> \<not> isspace (hd s)"
  shows "rstrip s = [] \<or> \<not> isspace (hd (rstrip s))"
proof (cases "rstrip s = []")
  case True
  then show ?thesis by simp
next
  case False
  obtain ws where ws: "s = rstrip s @ ws"
    using rstrip_prefix by blast
  from False ws have "hd s = hd (rstrip s)"
    by (metis hd_append2)
  moreover from False ws have "s \<noteq> []"
    by auto
  ultimately show ?thesis using assms by simp
qed

lemma strip_head: "strip s = [] \<or> \<not> isspace (hd (strip s))"
  unfolding strip_def by (rule rstrip_head, rule lstrip_head)

lemma strip_last: "strip s = [] \<or> \<not> isspace (last (strip s))"
  unfolding strip_def by (rule rstrip_last)

lemma strip_strip: "strip (strip s) = strip s"
proof -
  have "lstrip (strip s) = strip s"
    by (rule lstrip_id, rule strip_head)
  moreover have "rstrip (strip s) = strip s"
    by (rule rstrip_id, rule strip_last)
  ultimately show ?thesis by (simp add: strip_def)
qed

lemma strip_decomp:
  "\<exists>pre suf. s = pre @ strip s @ suf \<and> list_all isspace pre \<and> list_all isspace suf"
proof -
  obtain pre where pre: "s = pre @ lstrip s" "list_all isspace pre"
    using lstrip_suffix by blast
  obtain suf where suf: "lstrip s = rstrip (lstrip s) @ suf" "list_all isspace suf"
    using rstrip_prefix by blast
  from pre(1) suf(1) have "s = pre @ strip s @ suf"
    by (simp add: strip_def)
  with pre(2) suf(2) show ?thesis by blast
qed

lemma set_strip: "set (strip s) \<subseteq> set s"
proof -
  obtain pre suf where "s = pre @ strip s @ suf"
    using strip_decomp by blast
  then have "set s = set pre \<union> set (strip s) \<union> set suf"
    by (metis set_append sup_assoc)
  then show ?thesis by blast
qed

section \<open>Properties of the stream queries\<close>

lemma first_desc: "first (desc xs) = (if xs = [] then None else Some (last xs))"
  by (cases xs rule: rev_cases) (simp_all add: first_def desc_def)

lemma set_order_by: "set (order_by attr ss) = {s \<in> set ss. attr s \<noteq> None}"
  by (auto simp: order_by_def)

lemma order_by_empty: "order_by attr ss = [] \<longleftrightarrow> (\<forall>s\<in>set ss. attr s = None)"
proof -
  have "order_by attr ss = [] \<longleftrightarrow> set (order_by attr ss) = {}" by simp
  also have "\<dots> \<longleftrightarrow> (\<forall>s\<in>set ss. attr s = None)" by (auto simp: set_order_by)
  finally show ?thesis .
qed

lemma sorted_le_last: "x \<in> set xs \<Longrightarrow> sorted xs \<Longrightarrow> x \<le> last (xs :: nat list)"
  by (induction xs) auto

lemma order_by_last_max:
  assumes "t \<in> set (order_by attr ss)"
  shows "attr_key attr t \<le> attr_key attr (last (order_by attr ss))"
proof -
  let ?xs = "order_by attr ss"
  have srt: "sorted (map (attr_key attr) ?xs)"
    unfolding order_by_def by (rule sorted_sort_key)
  from assms have ne: "?xs \<noteq> []" by auto
  from assms have "attr_key attr t \<in> set (map (attr_key attr) ?xs)" by simp
  then have "attr_key attr t \<le> last (map (attr_key attr) ?xs)"
    using srt by (rule sorted_le_last)
  then show ?thesis using ne by (simp add: last_map)
qed


lemma filter_progressive_match:
  "filter_streams [Progressive, FileExtension (py ''mp4''), Resolution res] ss = filter (progressive_match res) ss"
  unfolding filter_streams_def by (rule filter_cong) (auto simp: progressive_match_def)

lemma filter_adaptive_match:
  "filter_streams [Adaptive, OnlyVideo, FileExtension (py ''mp4''), Resolution res] ss = filter (adaptive_match res) ss"
  unfolding filter_streams_def by (rule filter_cong) (auto simp: adaptive_match_def)

lemma filter_audio_mp4:
  "filter_streams [OnlyAudio, FileExtension (py ''mp4'')] ss = filter audio_mp4 ss"
  unfolding filter_streams_def by (rule filter_cong) (auto simp: audio_mp4_def)

lemma best_Some:
  assumes "first (desc (order_by attr ss)) = Some s"
  shows "s \<in> set ss \<and> attr s \<noteq> None
     \<and> (\<forall>t\<in>set ss. attr t \<noteq> None \<longrightarrow> attr_key attr t \<le> attr_key attr s)"
proof -
  from assms have ne: "order_by attr ss \<noteq> []" and s: "s = last (order_by attr ss)"
    by (auto simp: first_desc split: if_splits)
  from ne s have "s \<in> set (order_by attr ss)" by simp
  then have "s \<in> set ss \<and> attr s \<noteq> None" by (simp add: set_order_by)
  moreover have "\<forall>t\<in>set ss. attr t \<noteq> None \<longrightarrow> attr_key attr t \<le> attr_key attr s"
    unfolding s using order_by_last_max [of _ attr ss] by (simp add: set_order_by)
  ultimately show ?thesis by blast
qed

lemma best_None: "first (desc (order_by attr ss)) = None \<longleftrightarrow> (\<forall>s\<in>set ss. attr s = None)"
  by (simp add: first_desc order_by_empty)

lemma first_guard:
  "(if xs \<noteq> [] then first xs else y) = (case first xs of Some s \<Rightarrow> Some s | None \<Rightarrow> y)"
  by (cases xs) (simp_all add: first_def)

lemma first_guard_None: "(if xs \<noteq> [] then first xs else None) = first xs"
  by (cases xs) (simp_all add: first_def)

lemma get_video_stream_Inr:
  "streams yt = Inr ss \<Longrightarrow> get_video_stream yt res =
     (case first (desc (order_by resolution (filter (progressive_match res) ss))) of
        Some s \<Rightarrow> Some s
      | None \<Rightarrow> first (desc (order_by resolution (filter (adaptive_match res) ss))))"
  by (simp add: get_video_stream_def filter_progressive_match filter_adaptive_match Let_def
      first_guard_None first_guard split: option.split)

lemma get_audio_stream_Inr:
  "streams yt = Inr ss \<Longrightarrow>
   get_audio_stream yt = first (desc (order_by abr (filter audio_mp4 ss)))"
  by (simp add: get_audio_stream_def filter_audio_mp4 Let_def first_guard_None)

section \<open>Properties of the downloads\<close>

lemma endswith_append: "endswith (p @ suf) suf"
  by (simp add: endswith_def)

lemma py_mp4_nonempty: "py ''.mp4'' \<noteq> []"
  by (simp add: py_def)



lemma transfer_video_Inr:
  assumes "transfer_video c self yt stem sel fs = (Inr p, fs')"
  shows "\<exists>vs p0. sel = Some vs \<and> download c vs (Some (output_path self)) stem = Inr p0
           \<and> (if endswith p0 (py ''.mp4'')
               then p = p0 \<and> fs' = fs(p0 \<mapsto> StreamData vs)
               else p = p0 @ py ''.mp4''
                    \<and> fs' = (fs(p0 := None))(p0 @ py ''.mp4'' \<mapsto> StreamData vs))"
  using assms
  by (auto simp: transfer_video_def os_rename_def Let_def
      split: sum.splits option.splits if_splits)

lemma download_mp4_Inr:
  assumes "download_mp4 c self url filename res fs = (Inr p, fs')"
  shows "\<exists>yt stem sel. YouTube c url = Inr yt \<and> stem_of yt filename = Inr stem
           \<and> select_video_stream yt res = Inr sel
           \<and> transfer_video c self yt stem sel fs = (Inr p, fs')"
  using assms
  by (auto simp: download_mp4_def download_mp4_try_def split: sum.splits prod.splits)




lemma transfer_audio_leak:
  assumes "title yt = Inr t"
    and "download c s None (NamedTemporaryFile c (py ''.mp4'')) = Inr written"
    and "AudioFileClip c (NamedTemporaryFile c (py ''.mp4'')) = Some e
         \<or> (AudioFileClip c (NamedTemporaryFile c (py ''.mp4'')) = None
            \<and> write_audiofile c (NamedTemporaryFile c (py ''.mp4''))
                 (os_path_join (output_path self) (stem @ py ''.mp3'')) = Some e)"
  shows "fst (transfer_audio c self yt stem s fs) = Inl e
         \<and> snd (transfer_audio c self yt stem s fs) (NamedTemporaryFile c (py ''.mp4'')) \<noteq> None"
  using assms by (auto simp: transfer_audio_def Let_def)








lemma short_description_Some:
  "short_description (Some s) = PyStr (if length s > 200 then take 200 s @ py ''...'' else s)"
  by (auto simp: short_description_def)

section \<open>Evaluation on the example inputs\<close>

lemmas example_defs = mp4_stream_def progressive_720_def progressive_360_def adaptive_720_def
  adaptive_1080_def audio_96_def audio_128_def audio_160_def example_video_def
  example_collaborators_def example_downloader_def example_url_def

lemmas query_defs = filter_streams_def order_by_def attr_key_def int_repr_def isdigit_def
  desc_def first_def last_stream_def get_highest_resolution_def py_def

lemmas download_defs = download_mp3_def download_mp3_try_def transfer_audio_def
  download_mp4_def download_mp4_try_def transfer_video_def select_video_stream_def
  get_audio_stream_def get_video_stream_def stem_of_def os_path_join_def os_unlink_def
  os_rename_def endswith_def


lemma ex_mp4:
  "fst (download_mp4 (example_collaborators [adaptive_720, progressive_360, progressive_720] None)
          example_downloader example_url (Some (py ''clip'')) (py ''1080p'') Map.empty)
     = Inr (py ''./downloads/clip.mp4'')
   \<and> snd (download_mp4 (example_collaborators [adaptive_720, progressive_360, progressive_720] None)
          example_downloader example_url (Some (py ''clip'')) (py ''1080p'') Map.empty)
        (py ''./downloads/clip.mp4'') = Some (StreamData progressive_720)
   \<and> snd (download_mp4 (example_collaborators [adaptive_720, progressive_360, progressive_720] None)
          example_downloader example_url (Some (py ''clip'')) (py ''1080p'') Map.empty)
        (py ''./downloads/clip'') = None"
  by (simp add: download_defs example_defs query_defs Let_def)

lemma ex_info:
  "get_video_info (example_collaborators [] None) example_url =
     Inr [(py ''title'', PyStr (py ''What? A/B test'')), (py ''author'', PyStr (py ''someone'')),
          (py ''length'', PyInt 212), (py ''views'', PyInt 1000),
          (py ''publish_date'', PyDatetime 1700000000),
          (py ''description'', PyStr (replicate 200 120 @ py ''...''))]"
  by (simp add: get_video_info_def get_video_info_try_def example_defs short_description_def date_val_def py_def)

lemma ex_info_fail: "get_video_info (example_collaborators [] None) [] = Inr []"
  by (simp add: get_video_info_def get_video_info_try_def example_defs py_def)



section \<open>Claims about the sanitizer\<close>

text \<open>
  C2. For every input string, the sanitizer's result is the stripped substitution of the
  input: each occurrence of each of the nine invalid characters is replaced by an
  underscore and nothing else is changed, then a run of whitespace is removed from the
  front and from the end, and the result neither starts nor ends with whitespace. Hence
  the result contains none of the nine characters. The function is total: the equations
  hold for every input, with no failure value.
\<close>

theorem sanitize_filename_spec:
  "sanitize_filename name = strip (substitute name)
   \<and> (\<exists>pre suf. substitute name = pre @ sanitize_filename name @ suf
        \<and> list_all isspace pre \<and> list_all isspace suf)
   \<and> (sanitize_filename name = []
        \<or> (\<not> isspace (hd (sanitize_filename name)) \<and> \<not> isspace (last (sanitize_filename name))))
   \<and> set (sanitize_filename name) \<inter> set invalid_chars = {}"
proof -
  have eq: "sanitize_filename name = strip (substitute name)"
    by (rule sanitize_filename_substitute)
  have dec: "\<exists>pre suf. substitute name = pre @ sanitize_filename name @ suf
      \<and> list_all isspace pre \<and> list_all isspace suf"
    unfolding eq by (rule strip_decomp)
  have ends: "sanitize_filename name = []
      \<or> (\<not> isspace (hd (sanitize_filename name)) \<and> \<not> isspace (last (sanitize_filename name)))"
    unfolding eq using strip_head [of "substitute name"] strip_last [of "substitute name"]
    by blast
  have clean: "set (sanitize_filename name) \<inter> set invalid_chars = {}"
    unfolding eq using set_strip [of "substitute name"] substitute_clean [of name]
    by blast
  from eq dec ends clean show ?thesis by blast
qed

theorem sanitize_filename_spec_witness:
  "sanitize_filename (py '' a<b>c:d/e|f?g*h  '') = py ''a_b_c_d_e_f_g_h''
   \<and> set (sanitize_filename (py '' a<b>c:d/e|f?g*h  '')) \<inter> set invalid_chars = {}"
  using sanitize_filename_spec [of "py '' a<b>c:d/e|f?g*h  ''"]
  by (simp add: substitute_def py_def strip_def lstrip_def rstrip_def invalid_chars_def
      underscore_def isspace_def)

text \<open>
  C3. The sanitizer is idempotent: sanitizing a sanitized name changes nothing.
\<close>

theorem sanitize_filename_idempotent:
  "sanitize_filename (sanitize_filename x) = sanitize_filename x"
proof -
  have "set (sanitize_filename x) \<inter> set invalid_chars = {}"
    unfolding sanitize_filename_substitute
    using set_strip [of "substitute x"] substitute_clean [of x] by blast
  then have "substitute (sanitize_filename x) = sanitize_filename x"
    by (rule substitute_id)
  then have "sanitize_filename (sanitize_filename x) = strip (sanitize_filename x)"
    by (simp add: sanitize_filename_substitute)
  also have "\<dots> = sanitize_filename x"
    by (simp add: sanitize_filename_substitute strip_strip)
  finally show ?thesis .
qed

theorem sanitize_filename_idempotent_witness:
  "sanitize_filename (sanitize_filename (py '' What? A/B test ''))
     = sanitize_filename (py '' What? A/B test '')
   \<and> sanitize_filename (py '' What? A/B test '') = py ''What_ A_B test''"
  using sanitize_filename_idempotent [of "py '' What? A/B test ''"]
  by (simp add: sanitize_filename_def replace_def py_def strip_def lstrip_def rstrip_def
      invalid_chars_def underscore_def isspace_def)

section \<open>Claims about stream selection\<close>

text \<open>
  C4. For every stream list and requested resolution: when the list holds a progressive
  mp4 stream of exactly that resolution, the resolver returns such a stream, whatever
  adaptive streams there are; when it holds none but holds an adaptive video-only mp4
  stream of that resolution, the resolver returns such a stream; when it holds neither,
  the resolver returns nothing and the selection in \<^verbatim>\<open>download_mp4\<close> goes on to
  its fallback.
\<close>

theorem get_video_stream_priority:
  assumes "streams yt = Inr ss"
  shows "((\<exists>s\<in>set ss. progressive_match res s) \<longrightarrow>
            (\<exists>s\<in>set ss. progressive_match res s \<and> get_video_stream yt res = Some s))
       \<and> (\<not> (\<exists>s\<in>set ss. progressive_match res s) \<and> (\<exists>s\<in>set ss. adaptive_match res s) \<longrightarrow>
            (\<exists>s\<in>set ss. adaptive_match res s \<and> get_video_stream yt res = Some s))
       \<and> (\<not> (\<exists>s\<in>set ss. progressive_match res s) \<and> \<not> (\<exists>s\<in>set ss. adaptive_match res s) \<longrightarrow>
            get_video_stream yt res = None
            \<and> select_video_stream yt res =
                (case first (desc (order_by resolution
                        (filter_streams [Progressive, FileExtension (py ''mp4'')] ss))) of
                   Some s \<Rightarrow> Inr (Some s)
                 | None \<Rightarrow> Inr (get_highest_resolution ss)))"
proof -
  let ?P = "first (desc (order_by resolution (filter (progressive_match res) ss)))"
  let ?A = "first (desc (order_by resolution (filter (adaptive_match res) ss)))"
  have gv: "get_video_stream yt res = (case ?P of Some s \<Rightarrow> Some s | None \<Rightarrow> ?A)"
    using assms by (rule get_video_stream_Inr)
  have P_None: "?P = None \<longleftrightarrow> \<not> (\<exists>s\<in>set ss. progressive_match res s)"
    by (auto simp: best_None progressive_match_def)
  have A_None: "?A = None \<longleftrightarrow> \<not> (\<exists>s\<in>set ss. adaptive_match res s)"
    by (auto simp: best_None adaptive_match_def)
  have P_Some: "\<And>s. ?P = Some s \<Longrightarrow> s \<in> set ss \<and> progressive_match res s"
    using best_Some [of resolution "filter (progressive_match res) ss"] by simp
  have A_Some: "\<And>s. ?A = Some s \<Longrightarrow> s \<in> set ss \<and> adaptive_match res s"
    using best_Some [of resolution "filter (adaptive_match res) ss"] by simp
  have c1: "(\<exists>s\<in>set ss. progressive_match res s) \<longrightarrow>
            (\<exists>s\<in>set ss. progressive_match res s \<and> get_video_stream yt res = Some s)"
  proof
    assume "\<exists>s\<in>set ss. progressive_match res s"
    then obtain s where s: "?P = Some s" using P_None by fastforce
    with P_Some [OF s] gv show "\<exists>s\<in>set ss. progressive_match res s \<and> get_video_stream yt res = Some s"
      by auto
  qed
  have c2: "\<not> (\<exists>s\<in>set ss. progressive_match res s) \<and> (\<exists>s\<in>set ss. adaptive_match res s) \<longrightarrow>
            (\<exists>s\<in>set ss. adaptive_match res s \<and> get_video_stream yt res = Some s)"
  proof
    assume a: "\<not> (\<exists>s\<in>set ss. progressive_match res s) \<and> (\<exists>s\<in>set ss. adaptive_match res s)"
    then have p: "?P = None" using P_None by simp
    from a obtain s where s: "?A = Some s" using A_None by fastforce
    with A_Some [OF s] gv p show "\<exists>s\<in>set ss. adaptive_match res s \<and> get_video_stream yt res = Some s"
      by auto
  qed
  have c3: "\<not> (\<exists>s\<in>set ss. progressive_match res s) \<and> \<not> (\<exists>s\<in>set ss. adaptive_match res s) \<longrightarrow>
            get_video_stream yt res = None
            \<and> select_video_stream yt res =
                (case first (desc (order_by resolution
                        (filter_streams [Progressive, FileExtension (py ''mp4'')] ss))) of
                   Some s \<Rightarrow> Inr (Some s)
                 | None \<Rightarrow> Inr (get_highest_resolution ss))"
  proof
    assume a: "\<not> (\<exists>s\<in>set ss. progressive_match res s) \<and> \<not> (\<exists>s\<in>set ss. adaptive_match res s)"
    then have "?P = None" "?A = None" using P_None A_None by simp_all
    then have "get_video_stream yt res = None" using gv by simp
    then show "get_video_stream yt res = None
            \<and> select_video_stream yt res =
                (case first (desc (order_by resolution
                        (filter_streams [Progressive, FileExtension (py ''mp4'')] ss))) of
                   Some s \<Rightarrow> Inr (Some s)
                 | None \<Rightarrow> Inr (get_highest_resolution ss))"
      using assms by (simp add: select_video_stream_def)
  qed
  from c1 c2 c3 show ?thesis by blast
qed

theorem get_video_stream_priority_witness:
  "streams (example_video [adaptive_720, progressive_360, progressive_720])
     = Inr [adaptive_720, progressive_360, progressive_720]
   \<and> progressive_match (py ''720p'') progressive_720
   \<and> adaptive_match (py ''720p'') adaptive_720
   \<and> get_video_stream (example_video [adaptive_720, progressive_360, progressive_720]) (py ''720p'')
       = Some progressive_720"
proof -
  have h: "streams (example_video [adaptive_720, progressive_360, progressive_720])
     = Inr [adaptive_720, progressive_360, progressive_720]"
    by (simp add: example_video_def)
  show ?thesis
    using get_video_stream_priority [OF h, of "py ''720p''"]
    by (simp add: example_defs progressive_match_def adaptive_match_def py_def)
qed

text \<open>
  C6. For every stream list: a stream returned by the audio selection is an audio-only
  mp4 stream of the list that reports a bitrate, and no audio-only mp4 stream of the list
  reports a higher one; a stream is returned whenever some audio-only mp4 stream reports
  a bitrate; and nothing is returned when the list has no audio-only mp4 stream.
\<close>

theorem get_audio_stream_highest_bitrate:
  assumes "streams yt = Inr ss"
  shows "(\<forall>s. get_audio_stream yt = Some s \<longrightarrow>
            s \<in> set ss \<and> audio_mp4 s \<and> abr s \<noteq> None
            \<and> (\<forall>t\<in>set ss. audio_mp4 t \<and> abr t \<noteq> None \<longrightarrow> attr_key abr t \<le> attr_key abr s))
       \<and> ((\<exists>s\<in>set ss. audio_mp4 s \<and> abr s \<noteq> None) \<longrightarrow> get_audio_stream yt \<noteq> None)
       \<and> (\<not> (\<exists>s\<in>set ss. audio_mp4 s) \<longrightarrow> get_audio_stream yt = None)"
proof -
  have ga: "get_audio_stream yt = first (desc (order_by abr (filter audio_mp4 ss)))"
    using assms by (rule get_audio_stream_Inr)
  have c1: "\<forall>s. get_audio_stream yt = Some s \<longrightarrow>
            s \<in> set ss \<and> audio_mp4 s \<and> abr s \<noteq> None
            \<and> (\<forall>t\<in>set ss. audio_mp4 t \<and> abr t \<noteq> None \<longrightarrow> attr_key abr t \<le> attr_key abr s)"
  proof (intro allI impI)
    fix s
    assume "get_audio_stream yt = Some s"
    then have "first (desc (order_by abr (filter audio_mp4 ss))) = Some s"
      by (simp add: ga)
    from best_Some [OF this]
    have mem: "s \<in> set (filter audio_mp4 ss)" and rep: "abr s \<noteq> None"
      and top: "\<forall>t\<in>set (filter audio_mp4 ss). abr t \<noteq> None \<longrightarrow> attr_key abr t \<le> attr_key abr s"
      by blast+
    from mem have "s \<in> set ss" "audio_mp4 s"
      by simp_all
    moreover from top
    have "\<forall>t\<in>set ss. audio_mp4 t \<and> abr t \<noteq> None \<longrightarrow> attr_key abr t \<le> attr_key abr s"
      by simp
    ultimately show "s \<in> set ss \<and> audio_mp4 s \<and> abr s \<noteq> None
            \<and> (\<forall>t\<in>set ss. audio_mp4 t \<and> abr t \<noteq> None \<longrightarrow> attr_key abr t \<le> attr_key abr s)"
      using rep by blast
  qed
  have none: "get_audio_stream yt = None \<longleftrightarrow> (\<forall>s\<in>set ss. audio_mp4 s \<longrightarrow> abr s = None)"
    unfolding ga best_None by auto
  have c2: "(\<exists>s\<in>set ss. audio_mp4 s \<and> abr s \<noteq> None) \<longrightarrow> get_audio_stream yt \<noteq> None"
    unfolding none by auto
  have c3: "\<not> (\<exists>s\<in>set ss. audio_mp4 s) \<longrightarrow> get_audio_stream yt = None"
    unfolding none by auto
  show ?thesis
    by (intro conjI) (rule c1, rule c2, rule c3)
qed

theorem get_audio_stream_highest_bitrate_witness:
  "streams (example_video [audio_96, audio_160, progressive_360, audio_128])
     = Inr [audio_96, audio_160, progressive_360, audio_128]
   \<and> get_audio_stream (example_video [audio_96, audio_160, progressive_360, audio_128])
       = Some audio_160
   \<and> attr_key abr audio_96 = 96 \<and> attr_key abr audio_128 = 128 \<and> attr_key abr audio_160 = 160"
proof -
  have h: "streams (example_video [audio_96, audio_160, progressive_360, audio_128])
     = Inr [audio_96, audio_160, progressive_360, audio_128]"
    by (simp add: example_video_def)
  show ?thesis
    using get_audio_stream_highest_bitrate [OF h]
    by (simp add: get_audio_stream_def example_defs query_defs audio_mp4_def)
qed

text \<open>
  C5. For every call of \<^verbatim>\<open>download_mp4\<close> in which the resolver finds no stream for
  the requested resolution: the call goes on with the progressive mp4 stream of the
  highest resolution when the list holds a progressive mp4 stream that reports a
  resolution, and only otherwise with the provider's own highest-resolution stream.
\<close>

theorem download_mp4_fallback:
  assumes "YouTube c url = Inr yt" and "stem_of yt filename = Inr stem"
    and "streams yt = Inr ss" and "get_video_stream yt res = None"
  shows "\<exists>sel. download_mp4 c self url filename res fs =
           (case transfer_video c self yt stem sel fs of
              (Inl e, fs') \<Rightarrow> (Inl (video_failure e), fs')
            | (Inr file_path, fs') \<Rightarrow> (Inr file_path, fs'))
         \<and> select_video_stream yt res = Inr sel
         \<and> ((\<exists>s\<in>set ss. progressive_mp4 s) \<longrightarrow>
              (\<exists>s\<in>set ss. sel = Some s \<and> progressive_mp4 s
                 \<and> (\<forall>t\<in>set ss. progressive_mp4 t \<longrightarrow>
                       attr_key resolution t \<le> attr_key resolution s)))
         \<and> (\<not> (\<exists>s\<in>set ss. progressive_mp4 s) \<longrightarrow> sel = get_highest_resolution ss)"
proof -
  let ?F = "first (desc (order_by resolution
              (filter_streams [Progressive, FileExtension (py ''mp4'')] ss)))"
  define sel where "sel = (case ?F of Some s \<Rightarrow> Some s | None \<Rightarrow> get_highest_resolution ss)"
  have sv: "select_video_stream yt res = Inr sel"
    using assms(3,4) by (simp add: select_video_stream_def sel_def split: option.split)
  have dl: "download_mp4 c self url filename res fs =
           (case transfer_video c self yt stem sel fs of
              (Inl e, fs') \<Rightarrow> (Inl (video_failure e), fs')
            | (Inr file_path, fs') \<Rightarrow> (Inr file_path, fs'))"
    using assms(1,2) sv by (simp add: download_mp4_def download_mp4_try_def)
  have mem: "\<And>s. s \<in> set (filter_streams [Progressive, FileExtension (py ''mp4'')] ss) \<and> resolution s \<noteq> None
                \<longleftrightarrow> s \<in> set ss \<and> progressive_mp4 s"
    by (auto simp: filter_streams_def progressive_mp4_def)
  have F_None: "?F = None \<longleftrightarrow> \<not> (\<exists>s\<in>set ss. progressive_mp4 s)"
    unfolding best_None using mem by blast
  have F_Some: "\<And>s. ?F = Some s \<Longrightarrow>
       s \<in> set ss \<and> progressive_mp4 s
       \<and> (\<forall>t\<in>set ss. progressive_mp4 t \<longrightarrow> attr_key resolution t \<le> attr_key resolution s)"
  proof -
    fix s assume "?F = Some s"
    from best_Some [OF this] show "s \<in> set ss \<and> progressive_mp4 s
       \<and> (\<forall>t\<in>set ss. progressive_mp4 t \<longrightarrow> attr_key resolution t \<le> attr_key resolution s)"
      using mem by blast
  qed
  have c1: "(\<exists>s\<in>set ss. progressive_mp4 s) \<longrightarrow>
              (\<exists>s\<in>set ss. sel = Some s \<and> progressive_mp4 s
                 \<and> (\<forall>t\<in>set ss. progressive_mp4 t \<longrightarrow>
                       attr_key resolution t \<le> attr_key resolution s))"
  proof
    assume "\<exists>s\<in>set ss. progressive_mp4 s"
    then obtain s where s: "?F = Some s" using F_None by fastforce
    then have "sel = Some s" by (simp add: sel_def)
    with F_Some [OF s] show "\<exists>s\<in>set ss. sel = Some s \<and> progressive_mp4 s
                 \<and> (\<forall>t\<in>set ss. progressive_mp4 t \<longrightarrow>
                       attr_key resolution t \<le> attr_key resolution s)"
      by blast
  qed
  have c2: "\<not> (\<exists>s\<in>set ss. progressive_mp4 s) \<longrightarrow> sel = get_highest_resolution ss"
  proof
    assume "\<not> (\<exists>s\<in>set ss. progressive_mp4 s)"
    then have "?F = None" using F_None by blast
    then show "sel = get_highest_resolution ss" by (simp add: sel_def)
  qed
  from dl sv c1 c2 show ?thesis by blast
qed

theorem download_mp4_fallback_witness:
  "YouTube (example_collaborators [adaptive_720, progressive_360, progressive_720] None) example_url
     = Inr (example_video [adaptive_720, progressive_360, progressive_720])
   \<and> stem_of (example_video [adaptive_720, progressive_360, progressive_720]) (Some (py ''clip''))
       = Inr (py ''clip'')
   \<and> streams (example_video [adaptive_720, progressive_360, progressive_720])
       = Inr [adaptive_720, progressive_360, progressive_720]
   \<and> get_video_stream (example_video [adaptive_720, progressive_360, progressive_720]) (py ''1080p'')
       = None
   \<and> select_video_stream (example_video [adaptive_720, progressive_360, progressive_720]) (py ''1080p'')
       = Inr (Some progressive_720)
   \<and> fst (download_mp4 (example_collaborators [adaptive_720, progressive_360, progressive_720] None)
          example_downloader example_url (Some (py ''clip'')) (py ''1080p'') Map.empty)
       = Inr (py ''./downloads/clip.mp4'')"
proof -
  let ?ss = "[adaptive_720, progressive_360, progressive_720]"
  have h1: "YouTube (example_collaborators ?ss None) example_url = Inr (example_video ?ss)"
    by (simp add: example_collaborators_def example_url_def py_def)
  have h2: "stem_of (example_video ?ss) (Some (py ''clip'')) = Inr (py ''clip'')"
    by (simp add: stem_of_def)
  have h3: "streams (example_video ?ss) = Inr ?ss"
    by (simp add: example_video_def)
  have h4: "get_video_stream (example_video ?ss) (py ''1080p'') = None"
    by (simp add: get_video_stream_def example_defs query_defs)
  have sel: "select_video_stream (example_video ?ss) (py ''1080p'') = Inr (Some progressive_720)"
    by (simp add: select_video_stream_def get_video_stream_def example_defs query_defs)
  show ?thesis
    using download_mp4_fallback [OF h1 h2 h3 h4, of example_downloader Map.empty]
      h1 h2 h3 h4 sel ex_mp4
    by simp
qed

section \<open>Claims about the downloads\<close>

text \<open>
  C7. For every call of \<^verbatim>\<open>download_mp3\<close> in which the audio selection returns
  nothing, the call fails with an exception whose message is the audio-download prefix
  followed by the cause, and the files are as before: no temporary file was made and no
  stream was transferred. When the filename stem was available, the cause is that no
  suitable audio stream was found.
\<close>

theorem download_mp3_no_audio_stream:
  assumes "YouTube c url = Inr yt" and "get_audio_stream yt = None"
  shows "(\<exists>m. download_mp3 c self url filename fs
              = (Inl (Exception (py ''Failed to download audio: '' @ m)), fs))
       \<and> ((\<exists>stem. stem_of yt filename = Inr stem) \<longrightarrow>
            download_mp3 c self url filename fs
              = (Inl (Exception (py ''Failed to download audio: ''
                                 @ py ''No suitable audio stream found'')), fs))"
proof (cases "stem_of yt filename")
  case (Inl e)
  then have "download_mp3 c self url filename fs = (Inl (audio_failure e), fs)"
    using assms by (simp add: download_mp3_def download_mp3_try_def)
  moreover have "\<exists>m. audio_failure e = Exception (py ''Failed to download audio: '' @ m)"
    by (cases e) simp_all
  ultimately show ?thesis using Inl by auto
next
  case (Inr stem)
  then have "download_mp3 c self url filename fs
      = (Inl (Exception (py ''Failed to download audio: ''
                         @ py ''No suitable audio stream found'')), fs)"
    using assms by (simp add: download_mp3_def download_mp3_try_def)
  then show ?thesis by auto
qed

theorem download_mp3_no_audio_stream_witness:
  "YouTube (example_collaborators [progressive_360, adaptive_720] None) example_url
     = Inr (example_video [progressive_360, adaptive_720])
   \<and> get_audio_stream (example_video [progressive_360, adaptive_720]) = None
   \<and> download_mp3 (example_collaborators [progressive_360, adaptive_720] None) example_downloader
        example_url None Map.empty
       = (Inl (Exception (py ''Failed to download audio: No suitable audio stream found'')),
          Map.empty)"
proof -
  let ?ss = "[progressive_360, adaptive_720]"
  have h1: "YouTube (example_collaborators ?ss None) example_url = Inr (example_video ?ss)"
    by (simp add: example_collaborators_def example_url_def py_def)
  have h2: "get_audio_stream (example_video ?ss) = None"
    by (simp add: get_audio_stream_def example_defs query_defs)
  have st: "stem_of (example_video ?ss) None = Inr (py ''What_ A_B test'')"
    by (simp add: stem_of_def example_video_def sanitize_filename_def replace_def py_def
        strip_def lstrip_def rstrip_def invalid_chars_def underscore_def isspace_def)
  have cat: "py ''Failed to download audio: '' @ py ''No suitable audio stream found''
      = py ''Failed to download audio: No suitable audio stream found''"
    by (simp add: py_def)
  show ?thesis
    using download_mp3_no_audio_stream [OF h1 h2, of example_downloader None Map.empty] h1 h2 st cat
    by simp
qed

text \<open>
  C8. For every URL, \<^verbatim>\<open>get_video_info\<close> returns a dictionary and never an
  exception: when the provider yields every attribute, the dictionary has the title, the
  author, the length, the views, the publish date and the description, the description cut
  to its first 200 characters and an ellipsis when it is longer; when building the
  provider's object or reading any attribute raises, the dictionary is empty.
\<close>

theorem get_video_info_never_raises:
  "(\<exists>info. get_video_info c url = Inr info)
   \<and> (\<forall>yt t a l v p d.
         YouTube c url = Inr yt \<and> title yt = Inr t \<and> author yt = Inr a
         \<and> length_secs yt = Inr l \<and> views yt = Inr v \<and> publish_date yt = Inr p
         \<and> description yt = Inr d \<longrightarrow>
         get_video_info c url =
           Inr [(py ''title'', PyStr t), (py ''author'', PyStr a), (py ''length'', PyInt l),
                (py ''views'', PyInt v), (py ''publish_date'', date_val p),
                (py ''description'', short_description d)])
   \<and> (\<forall>e. YouTube c url = Inl e \<longrightarrow> get_video_info c url = Inr [])
   \<and> (\<forall>yt e. YouTube c url = Inr yt
         \<and> (title yt = Inl e \<or> author yt = Inl e \<or> length_secs yt = Inl e
            \<or> views yt = Inl e \<or> publish_date yt = Inl e \<or> description yt = Inl e) \<longrightarrow>
         get_video_info c url = Inr [])
   \<and> (\<forall>s. short_description (Some s)
            = PyStr (if length s > 200 then take 200 s @ py ''...'' else s))
   \<and> short_description None = PyNone"
proof -
  have a: "\<exists>info. get_video_info c url = Inr info"
    by (cases "get_video_info_try c url") (simp_all add: get_video_info_def)
  have b: "\<forall>yt t a l v p d.
         YouTube c url = Inr yt \<and> title yt = Inr t \<and> author yt = Inr a
         \<and> length_secs yt = Inr l \<and> views yt = Inr v \<and> publish_date yt = Inr p
         \<and> description yt = Inr d \<longrightarrow>
         get_video_info c url =
           Inr [(py ''title'', PyStr t), (py ''author'', PyStr a), (py ''length'', PyInt l),
                (py ''views'', PyInt v), (py ''publish_date'', date_val p),
                (py ''description'', short_description d)]"
    by (simp add: get_video_info_def get_video_info_try_def)
  have c: "\<forall>e. YouTube c url = Inl e \<longrightarrow> get_video_info c url = Inr []"
    by (simp add: get_video_info_def get_video_info_try_def)
  have c': "\<forall>yt e. YouTube c url = Inr yt
         \<and> (title yt = Inl e \<or> author yt = Inl e \<or> length_secs yt = Inl e
            \<or> views yt = Inl e \<or> publish_date yt = Inl e \<or> description yt = Inl e) \<longrightarrow>
         get_video_info c url = Inr []"
    by (auto simp: get_video_info_def get_video_info_try_def split: sum.splits)
  have d: "\<forall>s. short_description (Some s)
            = PyStr (if length s > 200 then take 200 s @ py ''...'' else s)"
    by (simp add: short_description_Some)
  have e: "short_description None = PyNone"
    by (simp add: short_description_def)
  show ?thesis
    by (intro conjI) (rule a, rule b, rule c, rule c', rule d, rule e)
qed

theorem get_video_info_never_raises_witness:
  "get_video_info (example_collaborators [] None) example_url =
     Inr [(py ''title'', PyStr (py ''What? A/B test'')), (py ''author'', PyStr (py ''someone'')),
          (py ''length'', PyInt 212), (py ''views'', PyInt 1000),
          (py ''publish_date'', PyDatetime 1700000000),
          (py ''description'', PyStr (replicate 200 120 @ py ''...''))]
   \<and> YouTube (example_collaborators [] None) [] = Inl (PytubeError (py ''regex_search''))
   \<and> get_video_info (example_collaborators [] None) [] = Inr []"
  using get_video_info_never_raises [of "example_collaborators [] None" example_url]
    get_video_info_never_raises [of "example_collaborators [] None" "[]"]
    ex_info ex_info_fail
  by (simp add: example_collaborators_def)

text \<open>
  C9. For every call of \<^verbatim>\<open>download_mp4\<close> that returns a path, the path ends in
  \<open>.mp4\<close> and holds the bytes of the selected stream. When the transfer wrote a path
  that already ends so, that path is returned; otherwise the file is moved to the path
  with \<open>.mp4\<close> appended, and nothing is left at the path the transfer wrote.
\<close>

theorem download_mp4_output_path:
  assumes "download_mp4 c self url filename res fs = (Inr p, fs')"
  shows "endswith p (py ''.mp4'')
       \<and> (\<exists>yt stem vs p0. YouTube c url = Inr yt \<and> stem_of yt filename = Inr stem
             \<and> select_video_stream yt res = Inr (Some vs)
             \<and> download c vs (Some (output_path self)) stem = Inr p0
             \<and> fs' p = Some (StreamData vs)
             \<and> (endswith p0 (py ''.mp4'') \<longrightarrow> p = p0 \<and> fs' = fs(p0 \<mapsto> StreamData vs))
             \<and> (\<not> endswith p0 (py ''.mp4'') \<longrightarrow>
                  p = p0 @ py ''.mp4'' \<and> fs' p0 = None
                  \<and> fs' = (fs(p0 := None))(p \<mapsto> StreamData vs)))"
proof -
  from download_mp4_Inr [OF assms] obtain yt stem sel where
    yt: "YouTube c url = Inr yt" and stem: "stem_of yt filename = Inr stem"
    and sel: "select_video_stream yt res = Inr sel"
    and tv: "transfer_video c self yt stem sel fs = (Inr p, fs')"
    by blast
  from transfer_video_Inr [OF tv] obtain vs p0 where
    vs: "sel = Some vs" and dl: "download c vs (Some (output_path self)) stem = Inr p0"
    and fin: "if endswith p0 (py ''.mp4'')
               then p = p0 \<and> fs' = fs(p0 \<mapsto> StreamData vs)
               else p = p0 @ py ''.mp4''
                    \<and> fs' = (fs(p0 := None))(p0 @ py ''.mp4'' \<mapsto> StreamData vs)"
    by blast
  have ends: "endswith p (py ''.mp4'')"
    using fin by (auto simp: endswith_append split: if_splits)
  have held: "fs' p = Some (StreamData vs)"
    using fin by (auto split: if_splits)
  have same: "endswith p0 (py ''.mp4'') \<longrightarrow> p = p0 \<and> fs' = fs(p0 \<mapsto> StreamData vs)"
    using fin by simp
  have moved: "\<not> endswith p0 (py ''.mp4'') \<longrightarrow>
                  p = p0 @ py ''.mp4'' \<and> fs' p0 = None
                  \<and> fs' = (fs(p0 := None))(p \<mapsto> StreamData vs)"
    using fin py_mp4_nonempty by (auto split: if_splits)
  from yt stem sel vs dl ends held same moved show ?thesis
    by blast
qed

theorem download_mp4_output_path_witness:
  "fst (download_mp4 (example_collaborators [adaptive_720, progressive_360, progressive_720] None)
          example_downloader example_url (Some (py ''clip'')) (py ''1080p'') Map.empty)
     = Inr (py ''./downloads/clip.mp4'')
   \<and> endswith (py ''./downloads/clip.mp4'') (py ''.mp4'')
   \<and> \<not> endswith (py ''./downloads/clip'') (py ''.mp4'')
   \<and> snd (download_mp4 (example_collaborators [adaptive_720, progressive_360, progressive_720] None)
          example_downloader example_url (Some (py ''clip'')) (py ''1080p'') Map.empty)
        (py ''./downloads/clip'') = None"
proof -
  let ?r = "download_mp4 (example_collaborators [adaptive_720, progressive_360, progressive_720] None)
          example_downloader example_url (Some (py ''clip'')) (py ''1080p'') Map.empty"
  have h: "?r = (Inr (py ''./downloads/clip.mp4''), snd ?r)"
    using ex_mp4 by (simp add: prod_eq_iff)
  have n: "\<not> endswith (py ''./downloads/clip'') (py ''.mp4'')"
    by (simp add: endswith_def py_def)
  show ?thesis
    using download_mp4_output_path [OF h] ex_mp4 n by simp
qed



text \<open>
  C1. The temporary file of \<^verbatim>\<open>download_mp3\<close> is unlinked only after a transcoding
  that succeeded: when the transcoding raises, the handler is reached with the file
  still in place. On the example below the transfer succeeds, the transcoding fails, and
  the call ends with the wrapped exception while the temporary file still holds the
  transferred stream.
\<close>

theorem download_mp3_leaks_temp_file:
  "fst (download_mp3 (example_collaborators [audio_96, audio_128]
                        (Some (Exception (py ''ffmpeg failed''))))
          example_downloader example_url (Some (py ''song'')) Map.empty)
     = Inl (Exception (py ''Failed to download audio: ffmpeg failed''))
   \<and> snd (download_mp3 (example_collaborators [audio_96, audio_128]
                        (Some (Exception (py ''ffmpeg failed''))))
          example_downloader example_url (Some (py ''song'')) Map.empty)
       (py ''/tmp/tmpab12.mp4'') = Some (StreamData audio_128)"
  by (simp add: download_defs example_defs query_defs Let_def)

end
